theory Spec2Isabelle
  imports Main "HOL-Library.Word"
begin

section \<open>Helpers of \<open>src/onboard.tsx\<close>\<close>

subsection \<open>\<open>bytesToBase64\<close>\<close>

text \<open>
  A \<open>Uint8Array\<close> is a list of 8-bit words. The intermediate "binary string" of the
  source holds one code unit per byte, each below 256, so it is a list of 8-bit
  characters (\<^typ>\<open>string\<close>).
\<close>

type_synonym byte = "8 word"

definition chunk :: nat where
  "chunk = 0x8000"

text \<open>\<open>bytes.subarray(begin, end)\<close>: both indices are clamped to the length.\<close>

definition subarray :: "byte list \<Rightarrow> nat \<Rightarrow> nat \<Rightarrow> byte list" where
  "subarray bytes b e = take (min e (length bytes) - min b (length bytes)) (drop b bytes)"

text \<open>\<open>String.fromCharCode.apply(null, codes)\<close>: one code unit per argument.\<close>

definition fromCharCode :: "byte list \<Rightarrow> string" where
  "fromCharCode codes = map (\<lambda>b. char_of (unat b)) codes"

text \<open>
  \<open>btoa\<close> is the platform's base64 encoder (RFC 4648, alphabet \<open>A-Za-z0-9+/\<close>,
  padding \<open>=\<close>). It raises on a code unit above 255, which an 8-bit character
  cannot be.
\<close>

definition b64_alphabet :: string where
  "b64_alphabet = ''ABCDEFGHIJKLMNOPQRSTUVWXYZabcdefghijklmnopqrstuvwxyz0123456789+/''"

definition b64_digit :: "nat \<Rightarrow> char" where
  "b64_digit n = b64_alphabet ! (n mod 64)"

fun b64_groups :: "nat list \<Rightarrow> string" where
  "b64_groups (a # b # c # rest) =
     [b64_digit (a div 4), b64_digit ((a mod 4) * 16 + b div 16),
      b64_digit ((b mod 16) * 4 + c div 64), b64_digit (c mod 64)] @ b64_groups rest"
| "b64_groups [a, b] =
     [b64_digit (a div 4), b64_digit ((a mod 4) * 16 + b div 16),
      b64_digit ((b mod 16) * 4), CHR ''='']"
| "b64_groups [a] =
     [b64_digit (a div 4), b64_digit ((a mod 4) * 16), CHR ''='', CHR ''='']"
| "b64_groups [] = []"

definition btoa :: "string \<Rightarrow> string" where
  "btoa binary = b64_groups (map of_char binary)"

text \<open>
  The loop \<open>for (let i = 0; i < bytes.length; i += chunk) binary += ...\<close>, with the
  loop variable and the accumulated string as arguments.
\<close>

function bytesToBase64_loop :: "byte list \<Rightarrow> nat \<Rightarrow> string \<Rightarrow> string" where
  "bytesToBase64_loop bytes i binary =
     (if i < length bytes
      then bytesToBase64_loop bytes (i + chunk)
             (binary @ fromCharCode (subarray bytes i (i + chunk)))
      else binary)"
  by pat_completeness auto
termination
  by (relation "measure (\<lambda>(bytes, i, binary). length bytes - i)") (auto simp: chunk_def)

declare bytesToBase64_loop.simps [simp del]

definition bytesToBase64 :: "byte list \<Rightarrow> string" where
  "bytesToBase64 bytes = btoa (bytesToBase64_loop bytes 0 [])"

text \<open>The single-pass encoding the chunked one is compared with: every byte converted
  in one call, then encoded.\<close>

definition base64_single_pass :: "byte list \<Rightarrow> string" where
  "base64_single_pass bytes = btoa (fromCharCode bytes)"

subsection \<open>\<open>getFolderName\<close>\<close>

text \<open>The separators of the regular expression \<open>/\\|\//\<close>.\<close>

definition is_sep :: "char \<Rightarrow> bool" where
  "is_sep c = (c = CHR 0x5C \<or> c = CHR ''/'')"

text \<open>\<open>p.split(/\\|\//)\<close>: the segments between separators, empty ones included; the
  empty string splits into one empty segment.\<close>

fun split_sep :: "string \<Rightarrow> string list" where
  "split_sep [] = [[]]"
| "split_sep (c # cs) =
     (if is_sep c then [] # split_sep cs
      else (case split_sep cs of
              [] \<Rightarrow> [[c]]
            | seg # segs \<Rightarrow> (c # seg) # segs))"

text \<open>\<open>Boolean(s)\<close> on a string: the empty string is falsy.\<close>

definition truthy :: "string \<Rightarrow> bool" where
  "truthy s = (s \<noteq> [])"

text \<open>\<open>p.split(/\\|\//).filter(Boolean)\<close>\<close>

definition segments :: "string \<Rightarrow> string list" where
  "segments p = filter truthy (split_sep p)"

text \<open>\<open>parts[parts.length - 1] || p\<close>: an index out of range reads \<open>undefined\<close>, and
  \<open>undefined\<close> and the empty string both yield \<open>p\<close>.\<close>

definition getFolderName :: "string \<Rightarrow> string" where
  "getFolderName p =
     (let parts = segments p
      in if parts = [] then p
         else if truthy (last parts) then last parts else p)"

section \<open>The state of the \<open>Onboard\<close> component\<close>

text \<open>\<open>BuildItem\<close>; the fields \<open>id\<close>, \<open>path\<close> and \<open>name\<close> carry a suffix.\<close>

record BuildItem =
  id_item :: string
  path_item :: string
  name_item :: string
  coverDataUrl :: "string option"

record credentials =
  email :: string
  password :: string

text \<open>
  A value of \<open>localStorage\<close>. The source stores strings; \<open>JSON.stringify\<close> of the
  build list and of the user object are kept as the value they serialise, which
  \<open>JSON.parse\<close> gives back.
\<close>

datatype stored =
    Plain string
  | Json_builds "BuildItem list"
  | Json_user credentials

text \<open>
  The calls that leave the component, in the order they are made, and the writes of
  the launch flag. A liveness query carries the time, in milliseconds after the polling
  effect that issues it started, at which it is issued.
\<close>

datatype call =
    Dialog_open
  | Path_join "string list"
  | Fs_exists string
  | Fs_readBinaryFile string
  | Invoke_firstlaunch string string string bool
  | Invoke_is_fortnite_client_running nat
  | SetIsLaunching bool
  | SetTimeout_clear_error nat
  | Navigate string

text \<open>
  The \<open>useState\<close> cells the core uses, \<open>localStorage\<close>, and the log of calls. The
  registry handlers run to their end on the state they were called on, one at a time:
  the values a handler closes over are the fields of that state, and what the host
  answers at each \<open>await\<close> of \<open>addBuild\<close> is given with the call. A launch is split
  at its \<open>await\<close>, and the launcher advances by events.

  \<open>isLaunching\<close> is the committed value of the launch flag, the one a render and the
  effect on \<open>[isLaunching]\<close> see. \<open>queued\<close> holds the writes of the flag made in the
  running synchronous stretch and not yet committed. \<open>generation\<close> numbers the runs of
  the polling effect, \<open>ticks\<close> counts the ticks of the interval of the current run,
  \<open>pending\<close> lists the liveness queries in flight by the run that issued each, and
  \<open>launches\<close> counts the \<open>firstlaunch\<close> commands in flight.
\<close>

record onboard =
  path :: "string option"
  isLaunching :: bool
  user :: "credentials option"
  EOR :: bool
  builds :: "BuildItem list"
  error :: "string option"
  localStorage :: "string \<rightharpoonup> stored"
  calls :: "call list"
  queued :: "bool list"
  generation :: nat
  ticks :: nat
  pending :: "nat list"
  launches :: nat

text \<open>What \<open>open({ directory: true })\<close> resolves to: \<open>null\<close>, a string or an array.\<close>

datatype open_result = Open_null | Open_path string | Open_paths "string list"

text \<open>
  The host behind the Tauri API, as the answers it gives. A promise that rejects is
  \<open>Inl\<close> of the rejection, as \<open>String(e)\<close> prints it.
\<close>

record host =
  open_dialog :: open_result
  join_path :: "string list \<Rightarrow> string + string"
  exists_fs :: "string \<Rightarrow> string + bool"
  readBinaryFile :: "string \<Rightarrow> string + byte list"
  date_now :: nat
  random_suffix :: string

definition initial :: onboard where
  "initial = \<lparr>path = None, isLaunching = False, user = None, EOR = False, builds = [],
     error = None, localStorage = Map.empty, calls = [], queued = [], generation = 0,
     ticks = 0, pending = [], launches = 0\<rparr>"

subsection \<open>Setters and awaited calls\<close>

definition log_call :: "call \<Rightarrow> onboard \<Rightarrow> onboard" where
  "log_call c s = s\<lparr>calls := calls s @ [c]\<rparr>"

text \<open>
  \<open>setIsLaunching(b)\<close> queues the write. React applies the writes of a synchronous
  stretch together, when the stretch ends at an \<open>await\<close> or at the handler's return.
\<close>

definition setIsLaunching :: "bool \<Rightarrow> onboard \<Rightarrow> onboard" where
  "setIsLaunching b s = log_call (SetIsLaunching b) (s\<lparr>queued := queued s @ [b]\<rparr>)"

text \<open>\<open>setError(msg); setTimeout(() => setError(null), 5000);\<close>\<close>

definition setError_5s :: "string \<Rightarrow> onboard \<Rightarrow> onboard" where
  "setError_5s msg s = log_call (SetTimeout_clear_error 5000) (s\<lparr>error := Some msg\<rparr>)"

text \<open>
  A computation inside a \<open>try\<close> block: it runs on the state and either throws
  (\<open>Inl\<close>) or yields a value.
\<close>

type_synonym 'a attempt = "onboard \<Rightarrow> (string + 'a) \<times> onboard"

definition await :: "call \<Rightarrow> string + 'a \<Rightarrow> 'a attempt" where
  "await c r s = (r, log_call c s)"

definition and_then :: "'a attempt \<Rightarrow> ('a \<Rightarrow> 'b attempt) \<Rightarrow> 'b attempt" where
  "and_then m f s = (case m s of (Inl e, s') \<Rightarrow> (Inl e, s') | (Inr x, s') \<Rightarrow> f x s')"

definition return :: "'a \<Rightarrow> 'a attempt" where
  "return x s = (Inr x, s)"

subsection \<open>Messages\<close>

definition msg_invalid_build :: string where
  "msg_invalid_build = ''Invalid build: The folder must contain an 'Engine' folder.''"

definition msg_full :: string where
  "msg_full = ''Maximum builds in library reached (16). Remove one first.''"

definition msg_no_build_selected :: string where
  "msg_no_build_selected = ''Please first select a game folder or build in the library.''"

definition msg_not_authenticated :: string where
  "msg_not_authenticated = ''No login details found.''"

subsection \<open>\<open>addBuild\<close>\<close>

text \<open>\<open>String(n)\<close> of a non-negative integer.\<close>

fun String_nat :: "nat \<Rightarrow> string" where
  "String_nat n =
     (if n < 10 then [char_of (48 + n)]
      else String_nat (n div 10) @ [char_of (48 + n mod 10)])"

declare String_nat.simps [simp del]

text \<open>The optional cover: read and encoded when the splash file exists.\<close>

definition read_cover :: "host \<Rightarrow> string \<Rightarrow> bool \<Rightarrow> string option attempt" where
  "read_cover h splashPath hasSplash =
     (if hasSplash
      then and_then (await (Fs_readBinaryFile splashPath) (readBinaryFile h splashPath))
             (\<lambda>bytes. return (Some (''data:image/bmp;base64,'' @ bytesToBase64 bytes)))
      else return None)"

definition commit_build :: "host \<Rightarrow> string \<Rightarrow> string option \<Rightarrow> unit attempt" where
  "commit_build h selected cover s =
     (let item = \<lparr>id_item = String_nat (date_now h) @ ''-'' @ random_suffix h,
                   path_item = selected,
                   name_item = getFolderName selected,
                   coverDataUrl = cover\<rparr>;
          updatedBuilds = item # builds s
      in (Inr (),
          s\<lparr>builds := updatedBuilds, path := Some selected,
            localStorage := (localStorage s)(''PabloMP.builds'' \<mapsto> Json_builds updatedBuilds)\<rparr>))"

text \<open>The body of the \<open>try\<close> block.\<close>

definition addBuild_try :: "host \<Rightarrow> string \<Rightarrow> unit attempt" where
  "addBuild_try h selected =
     and_then (await (Path_join [selected, ''Engine'']) (join_path h [selected, ''Engine'']))
       (\<lambda>enginePath.
     and_then (await (Fs_exists enginePath) (exists_fs h enginePath))
       (\<lambda>hasEngine s.
          if \<not> hasEngine then (Inr (), setError_5s msg_invalid_build s)
          else if length (builds s) \<ge> 16 then (Inr (), setError_5s msg_full s)
          else
     and_then (await (Path_join [selected, ''FortniteGame'', ''Content'', ''Splash'', ''Splash.bmp''])
                (join_path h [selected, ''FortniteGame'', ''Content'', ''Splash'', ''Splash.bmp'']))
       (\<lambda>splashPath.
     and_then (await (Fs_exists splashPath) (exists_fs h splashPath))
       (\<lambda>hasSplash.
     and_then (read_cover h splashPath hasSplash)
       (\<lambda>cover. commit_build h selected cover))) s))"

definition addBuild :: "host \<Rightarrow> onboard \<Rightarrow> onboard" where
  "addBuild h s0 =
     (let s = log_call Dialog_open s0
      in case open_dialog h of
           Open_null \<Rightarrow> s
         | Open_paths ps \<Rightarrow> s
         | Open_path selected \<Rightarrow>
             if \<not> truthy selected then s
             else (case addBuild_try h selected s of
                     (Inr u, s') \<Rightarrow> s'
                   | (Inl e, s') \<Rightarrow> setError_5s (''Could not add build: '' @ e) s'))"

subsection \<open>\<open>removeBuild\<close>\<close>

definition removeBuild :: "string \<Rightarrow> onboard \<Rightarrow> onboard" where
  "removeBuild i s =
     (let prev = builds s;
          next = filter (\<lambda>b. id_item b \<noteq> i) prev;
          removed = find (\<lambda>b. id_item b = i) prev;
          s1 = s\<lparr>localStorage := (localStorage s)(''PabloMP.builds'' \<mapsto> Json_builds next)\<rparr>;
          s2 = (case removed of
                  None \<Rightarrow> s1
                | Some r \<Rightarrow>
                    if Some (path_item r) = path s
                    then (case next of
                            b # bs \<Rightarrow> s1\<lparr>path := Some (path_item b)\<rparr>
                          | [] \<Rightarrow> s1\<lparr>path := None\<rparr>)
                    else s1)
      in s2\<lparr>builds := next\<rparr>)"

subsection \<open>\<open>handleLaunch\<close> and the polling effect\<close>

text \<open>\<open>path || builds[0]?.path\<close>: \<open>null\<close> and the empty string are falsy.\<close>

definition launchPath :: "onboard \<Rightarrow> string option" where
  "launchPath s =
     (case path s of
        Some p \<Rightarrow> if truthy p then Some p
                  else (case builds s of [] \<Rightarrow> None | b # bs \<Rightarrow> Some (path_item b))
      | None \<Rightarrow> (case builds s of [] \<Rightarrow> None | b # bs \<Rightarrow> Some (path_item b)))"

text \<open>
  \<open>handleLaunch\<close> up to its \<open>return\<close> or to the \<open>await\<close> of \<open>firstlaunch\<close>, where the
  command is in flight.
\<close>

definition handleLaunch :: "onboard \<Rightarrow> onboard" where
  "handleLaunch s0 =
     (let s = setIsLaunching True s0
      in case launchPath s0 of
           None \<Rightarrow> setIsLaunching False (setError_5s msg_no_build_selected s)
         | Some lp \<Rightarrow>
             if \<not> truthy lp
             then setIsLaunching False (setError_5s msg_no_build_selected s)
             else (case user s0 of
                     None \<Rightarrow> setIsLaunching False (setError_5s msg_not_authenticated s)
                   | Some u \<Rightarrow>
                       log_call (Invoke_firstlaunch lp (email u) (password u) (EOR s0))
                         (s\<lparr>launches := Suc (launches s)\<rparr>)))"

text \<open>The rest of \<open>handleLaunch\<close> when \<open>firstlaunch\<close> settles: the \<open>catch\<close> on a
  rejection, nothing otherwise.\<close>

definition handleLaunch_settled :: "string + unit \<Rightarrow> onboard \<Rightarrow> onboard" where
  "handleLaunch_settled x s =
     (case x of
        Inr ok \<Rightarrow> s
      | Inl err \<Rightarrow> setIsLaunching False (setError_5s (''Fehler beim Start: '' @ err) s))"

text \<open>
  What \<open>invoke("is_fortnite_client_running")\<close> settles to: a boolean, another value, or
  a rejection.
\<close>

datatype reply = Resolved_bool bool | Resolved_other | Rejected

text \<open>
  \<open>run\<close> up to its \<open>await\<close>: the query is issued, by the current run of the effect, at
  the time of the tick that called it.
\<close>

definition run :: "onboard \<Rightarrow> onboard" where
  "run s =
     log_call (Invoke_is_fortnite_client_running (3000 * ticks s))
       (s\<lparr>pending := pending s @ [generation s]\<rparr>)"

text \<open>
  The rest of \<open>run\<close> when the query at position \<open>k\<close> of those in flight settles. The
  \<open>cancelled\<close> of its closure is still \<open>false\<close> when the run of the effect that issued
  it is the current one and the flag is up (the cleanup has not run).
\<close>

definition run_settled :: "nat \<Rightarrow> reply \<Rightarrow> onboard \<Rightarrow> onboard" where
  "run_settled k r s =
     (if k < length (pending s)
      then (let live = (isLaunching s \<and> pending s ! k = generation s);
                s1 = s\<lparr>pending := take k (pending s) @ drop (Suc k) (pending s)\<rparr>
            in case r of
                 Resolved_bool b \<Rightarrow> if live \<and> b = False then setIsLaunching False s1 else s1
               | Resolved_other \<Rightarrow> s1
               | Rejected \<Rightarrow> if live then setIsLaunching False s1 else s1)
      else s)"

text \<open>
  The effect on \<open>[isLaunching]\<close>, run after a commit that changed the flag. With the
  flag up a new run starts: \<open>run\<close> is called at once and the interval is set. With the
  flag down the cleanup of the last run has set its \<open>cancelled\<close> and cleared its
  interval, and nothing starts.
\<close>

definition useEffect_isLaunching :: "onboard \<Rightarrow> onboard" where
  "useEffect_isLaunching s =
     (if isLaunching s then run (s\<lparr>generation := Suc (generation s), ticks := 0\<rparr>) else s)"

text \<open>The end of a synchronous stretch: the queued writes are applied, the last one
  giving the flag, and the effect runs if the flag changed.\<close>

definition commit :: "onboard \<Rightarrow> onboard" where
  "commit s =
     (if queued s = [] then s
      else (let s1 = s\<lparr>isLaunching := last (queued s), queued := []\<rparr>
            in if isLaunching s1 = isLaunching s then s1 else useEffect_isLaunching s1))"

text \<open>
  What happens to the launcher, one event at a time: the user starts a launch, a
  \<open>firstlaunch\<close> command in flight settles, the interval ticks (3000 ms after the
  previous tick or the start of the run), or the liveness query at a position of those
  in flight settles. The interval ticks whether or not earlier queries have settled.
\<close>

datatype event =
    Click_launch
  | Firstlaunch_settled "string + unit"
  | Tick
  | Query_settled nat reply

fun fire :: "event \<Rightarrow> onboard \<Rightarrow> onboard" where
  "fire Click_launch s = commit (handleLaunch s)"
| "fire (Firstlaunch_settled x) s =
     (if launches s = 0 then s
      else commit (handleLaunch_settled x (s\<lparr>launches := launches s - 1\<rparr>)))"
| "fire Tick s = (if isLaunching s then run (s\<lparr>ticks := Suc (ticks s)\<rparr>) else s)"
| "fire (Query_settled k r) s = commit (run_settled k r s)"

fun run_events :: "event list \<Rightarrow> onboard \<Rightarrow> onboard" where
  "run_events [] s = s"
| "run_events (e # es) s = run_events es (fire e s)"

text \<open>The liveness queries in a log, by their times.\<close>

fun queries :: "call list \<Rightarrow> nat list" where
  "queries [] = []"
| "queries (Invoke_is_fortnite_client_running t # cs) = t # queries cs"
| "queries (c # cs) = queries cs"

subsection \<open>\<open>handleLogout\<close> and the persistence effects\<close>

definition handleLogout :: "onboard \<Rightarrow> onboard" where
  "handleLogout s =
     log_call (Navigate ''/login'')
       (s\<lparr>localStorage := Map.empty, user := None, path := None, builds := []\<rparr>)"

text \<open>The effect on \<open>[builds]\<close>.\<close>

definition useEffect_builds :: "onboard \<Rightarrow> onboard" where
  "useEffect_builds s =
     s\<lparr>localStorage := (localStorage s)(''PabloMP.builds'' \<mapsto> Json_builds (builds s))\<rparr>"

text \<open>The effect on \<open>[path]\<close>.\<close>

definition useEffect_path :: "onboard \<Rightarrow> onboard" where
  "useEffect_path s =
     (case path s of
        None \<Rightarrow> s\<lparr>localStorage := (localStorage s)(''buildPath'' := None)\<rparr>
      | Some p \<Rightarrow>
          if truthy p then s\<lparr>localStorage := (localStorage s)(''buildPath'' \<mapsto> Plain p)\<rparr>
          else s\<lparr>localStorage := (localStorage s)(''buildPath'' := None)\<rparr>)"

subsection \<open>Sequences of registry operations\<close>

text \<open>An \<open>add\<close> comes with the host's answers during that call.\<close>

datatype op = Add host | Remove string

fun step :: "op \<Rightarrow> onboard \<Rightarrow> onboard" where
  "step (Add h) s = addBuild h s"
| "step (Remove i) s = removeBuild i s"

fun run_ops :: "op list \<Rightarrow> onboard \<Rightarrow> onboard" where
  "run_ops [] s = s"
| "run_ops (x # xs) s = run_ops xs (step x s)"

subsection \<open>Concrete hosts and states\<close>

text \<open>A host on a POSIX file system: \<open>join\<close> puts \<open>/\<close> between the parts.\<close>

fun join_slash :: "string list \<Rightarrow> string" where
  "join_slash [] = []"
| "join_slash [p] = p"
| "join_slash (p # q # ps) = p @ ''/'' @ join_slash (q # ps)"

text \<open>The user picks \<open>/games/Foo\<close>, which holds \<open>Engine\<close> and no splash image.\<close>

definition host_Foo :: host where
  "host_Foo = \<lparr>open_dialog = Open_path ''/games/Foo'',
     join_path = (\<lambda>ps. Inr (join_slash ps)),
     exists_fs = (\<lambda>p. Inr (p = ''/games/Foo/Engine'')),
     readBinaryFile = (\<lambda>p. Inl ''No such file or directory (os error 2)''),
     date_now = 1760000000000,
     random_suffix = ''k3j9x1''\<rparr>"

text \<open>The same folder with a splash image of three bytes.\<close>

definition host_Foo_cover :: host where
  "host_Foo_cover = host_Foo\<lparr>exists_fs := (\<lambda>p. Inr True),
     readBinaryFile := (\<lambda>p. Inr [0x4D, 0x61, 0x6E])\<rparr>"

text \<open>The same folder with a splash image that exists and cannot be read.\<close>

definition host_Foo_unreadable :: host where
  "host_Foo_unreadable = host_Foo\<lparr>exists_fs := (\<lambda>p. Inr True),
     readBinaryFile := (\<lambda>p. Inl ''Permission denied (os error 13)'')\<rparr>"

text \<open>The user picks \<open>/games/Bar\<close>, which has no \<open>Engine\<close> folder.\<close>

definition host_Bar :: host where
  "host_Bar = host_Foo\<lparr>open_dialog := Open_path ''/games/Bar''\<rparr>"

definition build_n :: "nat \<Rightarrow> BuildItem" where
  "build_n n = \<lparr>id_item = ''id-'' @ String_nat n, path_item = ''/games/B'' @ String_nat n,
     name_item = ''B'' @ String_nat n, coverDataUrl = None\<rparr>"

text \<open>A library of sixteen builds, the first one selected, in step with the store.\<close>

definition library16 :: onboard where
  "library16 = initial\<lparr>builds := map build_n [0..<16], path := Some ''/games/B0'',
     localStorage := [''PabloMP.builds'' \<mapsto> Json_builds (map build_n [0..<16]),
                      ''buildPath'' \<mapsto> Plain ''/games/B0'']\<rparr>"

definition alice :: credentials where
  "alice = \<lparr>email = ''alice@example.com'', password = ''secret1''\<rparr>"

text \<open>Three builds \<open>a\<close>, \<open>b\<close>, \<open>c\<close>, the second one selected.\<close>

definition item_a :: BuildItem where
  "item_a = \<lparr>id_item = ''a'', path_item = ''/games/A'', name_item = ''A'', coverDataUrl = None\<rparr>"

definition item_b :: BuildItem where
  "item_b = \<lparr>id_item = ''b'', path_item = ''/games/B'', name_item = ''B'', coverDataUrl = None\<rparr>"

definition item_c :: BuildItem where
  "item_c = \<lparr>id_item = ''c'', path_item = ''/games/C'', name_item = ''C'', coverDataUrl = None\<rparr>"

definition library3 :: onboard where
  "library3 = initial\<lparr>builds := [item_a, item_b, item_c], path := Some ''/games/B'',
     localStorage := [''PabloMP.builds'' \<mapsto> Json_builds [item_a, item_b, item_c],
                      ''buildPath'' \<mapsto> Plain ''/games/B'']\<rparr>"

text \<open>The same library with a session.\<close>

definition session3 :: onboard where
  "session3 = library3\<lparr>user := Some alice\<rparr>"


section \<open>Properties of the helpers\<close>

subsection \<open>Chunked encoding\<close>

lemma fromCharCode_append: "fromCharCode (xs @ ys) = fromCharCode xs @ fromCharCode ys"
  by (simp add: fromCharCode_def)

lemma subarray_chunk:
  "i < length bytes \<Longrightarrow> subarray bytes i (i + chunk) = take chunk (drop i bytes)"
  by (simp add: subarray_def min_def)

lemma subarray_length: "length (subarray bytes i (i + chunk)) \<le> chunk"
  by (auto simp: subarray_def min_def)

lemma bytesToBase64_loop_eq:
  "bytesToBase64_loop bytes i binary = binary @ fromCharCode (drop i bytes)"
proof (induction bytes i binary rule: bytesToBase64_loop.induct)
  case (1 bytes i binary)
  show ?case
  proof (cases "i < length bytes")
    case True
    have "take chunk (drop i bytes) @ drop (i + chunk) bytes = drop i bytes"
      by (metis add.commute append_take_drop_id drop_drop)
    then have parts: "fromCharCode (drop i bytes) =
        fromCharCode (take chunk (drop i bytes)) @ fromCharCode (drop (i + chunk) bytes)"
      by (metis fromCharCode_append)
    have "bytesToBase64_loop bytes i binary =
        bytesToBase64_loop bytes (i + chunk)
          (binary @ fromCharCode (subarray bytes i (i + chunk)))"
      using True by (subst bytesToBase64_loop.simps) simp
    also have "\<dots> = (binary @ fromCharCode (take chunk (drop i bytes)))
        @ fromCharCode (drop (i + chunk) bytes)"
      using True 1 by (simp add: subarray_chunk)
    finally show ?thesis
      using parts by simp
  next
    case False
    then show ?thesis
      by (subst bytesToBase64_loop.simps) (simp add: fromCharCode_def)
  qed
qed

text \<open>
  C9. For every byte array, \<open>bytesToBase64\<close>, which converts the buffer in slices of at
  most \<open>0x8000\<close> bytes, returns the same string as the encoding that converts the whole
  buffer in one call; no slice the loop takes is longer than \<open>0x8000\<close> bytes.
\<close>

theorem bytesToBase64_single_pass:
  "bytesToBase64 bytes = base64_single_pass bytes
   \<and> chunk = 32768
   \<and> (\<forall>i. length (subarray bytes i (i + chunk)) \<le> 32768)"
proof -
  have "bytesToBase64 bytes = base64_single_pass bytes"
    by (simp add: bytesToBase64_def base64_single_pass_def bytesToBase64_loop_eq)
  moreover have "chunk = 32768"
    by (simp add: chunk_def)
  moreover have "\<forall>i. length (subarray bytes i (i + chunk)) \<le> 32768"
    using subarray_length by (simp add: chunk_def)
  ultimately show ?thesis by simp
qed

subsection \<open>Folder names\<close>

lemma split_sep_nonempty: "split_sep p \<noteq> []"
  by (induction p) (auto split: list.splits)

lemma split_sep_snoc:
  "split_sep (p @ [c]) =
     (if is_sep c then split_sep p @ [[]]
      else butlast (split_sep p) @ [last (split_sep p) @ [c]])"
  by (induction p) (auto split: list.splits simp: split_sep_nonempty)

lemma last_split_sep: "last (split_sep p) = rev (takeWhile (\<lambda>c. \<not> is_sep c) (rev p))"
  by (induction p rule: rev_induct) (auto simp: split_sep_snoc)

lemma segments_snoc_sep: "is_sep c \<Longrightarrow> segments (p @ [c]) = segments p"
  by (simp add: segments_def split_sep_snoc truthy_def)

lemma segments_snoc_char:
  "\<not> is_sep c \<Longrightarrow>
   segments (p @ [c]) = filter truthy (butlast (split_sep p)) @ [last (split_sep p) @ [c]]"
  by (simp add: segments_def split_sep_snoc truthy_def)

lemma segments_empty_iff: "segments p = [] \<longleftrightarrow> (\<forall>c \<in> set p. is_sep c)"
proof (induction p rule: rev_induct)
  case Nil
  show ?case by (simp add: segments_def truthy_def)
next
  case (snoc c p)
  show ?case
  proof (cases "is_sep c")
    case True
    with snoc show ?thesis by (simp add: segments_snoc_sep)
  next
    case False
    then show ?thesis by (auto simp: segments_snoc_char)
  qed
qed

lemma last_segments:
  "segments p \<noteq> [] \<Longrightarrow>
   last (segments p) = rev (takeWhile (\<lambda>c. \<not> is_sep c) (dropWhile is_sep (rev p)))"
proof (induction p rule: rev_induct)
  case Nil
  then show ?case by (simp add: segments_def truthy_def)
next
  case (snoc c p)
  show ?case
  proof (cases "is_sep c")
    case True
    with snoc show ?thesis by (simp add: segments_snoc_sep)
  next
    case False
    then show ?thesis by (simp add: segments_snoc_char last_split_sep)
  qed
qed

lemma getFolderName_segments:
  "getFolderName p = (if segments p = [] then p else last (segments p))"
proof -
  have "truthy (last (segments p))" if "segments p \<noteq> []"
  proof -
    from that have "last (segments p) \<in> set (segments p)" by simp
    then show ?thesis by (simp add: segments_def)
  qed
  then show ?thesis
    by (simp add: getFolderName_def Let_def)
qed

lemma getFolderName_only_seps: "(\<forall>c \<in> set p. is_sep c) \<Longrightarrow> getFolderName p = p"
  by (simp add: getFolderName_segments segments_empty_iff)

lemma getFolderName_decompose:
  assumes "\<exists>c \<in> set p. \<not> is_sep c"
  shows "\<exists>pre suf. p = pre @ getFolderName p @ suf \<and> (\<forall>c \<in> set suf. is_sep c)
           \<and> (pre = [] \<or> is_sep (last pre))"
    and "getFolderName p \<noteq> []"
    and "\<forall>c \<in> set (getFolderName p). \<not> is_sep c"
proof -
  let ?r = "dropWhile is_sep (rev p)"
  let ?n = "takeWhile (\<lambda>c. \<not> is_sep c) ?r"
  from assms have ne: "segments p \<noteq> []" by (simp add: segments_empty_iff)
  then have name: "getFolderName p = rev ?n"
    by (simp add: getFolderName_segments last_segments)
  from assms have "?r \<noteq> []" by (auto simp: dropWhile_eq_Nil_conv)
  then have "\<not> is_sep (hd ?r)" by (metis hd_dropWhile)
  with \<open>?r \<noteq> []\<close> have "?n \<noteq> []" by (cases ?r) auto
  with name show "getFolderName p \<noteq> []" by simp
  show "\<forall>c \<in> set (getFolderName p). \<not> is_sep c"
    unfolding name by (auto dest: set_takeWhileD)
  let ?suf = "rev (takeWhile is_sep (rev p))"
  let ?pre = "rev (dropWhile (\<lambda>c. \<not> is_sep c) ?r)"
  have "rev p = takeWhile is_sep (rev p) @ ?n @ dropWhile (\<lambda>c. \<not> is_sep c) ?r"
    by simp
  then have "p = ?pre @ rev ?n @ ?suf"
    by (metis append.assoc rev_append rev_rev_ident)
  moreover have "\<forall>c \<in> set ?suf. is_sep c" by (auto dest: set_takeWhileD)
  moreover have "?pre = [] \<or> is_sep (last ?pre)"
  proof (cases "dropWhile (\<lambda>c. \<not> is_sep c) ?r")
    case Nil
    then show ?thesis by simp
  next
    case (Cons a as)
    then have "is_sep (hd (dropWhile (\<lambda>c. \<not> is_sep c) ?r))"
      by (metis hd_dropWhile list.distinct(1))
    with Cons show ?thesis by (simp add: last_rev)
  qed
  ultimately show "\<exists>pre suf. p = pre @ getFolderName p @ suf \<and> (\<forall>c \<in> set suf. is_sep c)
           \<and> (pre = [] \<or> is_sep (last pre))"
    unfolding name by blast
qed

text \<open>
  C10. The name \<open>addBuild\<close> gives a new entry is \<open>getFolderName\<close> of the chosen path.
  When the path holds a character that is not a separator, the name is its last
  non-empty segment: it is not empty, holds no \<open>/\<close> or backslash, only separators follow
  it in the path, and it starts the path or follows a separator. When every character
  of the path is a separator (the empty path included), the name is the path itself.
\<close>

theorem getFolderName_last_nonempty_segment:
  "((\<exists>c \<in> set p. \<not> is_sep c) \<longrightarrow>
      getFolderName p \<noteq> [] \<and> (\<forall>c \<in> set (getFolderName p). \<not> is_sep c)
      \<and> (\<exists>pre suf. p = pre @ getFolderName p @ suf \<and> (\<forall>c \<in> set suf. is_sep c)
            \<and> (pre = [] \<or> is_sep (last pre))))
   \<and> ((\<forall>c \<in> set p. is_sep c) \<longrightarrow> getFolderName p = p)
   \<and> name_item (hd (builds (snd (commit_build h p cover s)))) = getFolderName p"
proof -
  have "name_item (hd (builds (snd (commit_build h p cover s)))) = getFolderName p"
    by (simp add: commit_build_def Let_def)
  then show ?thesis
    using getFolderName_decompose [of p] getFolderName_only_seps [of p] by blast
qed

theorem getFolderName_last_nonempty_segment_witness:
  "(\<exists>c \<in> set ''/games/Foo/''. \<not> is_sep c)
   \<and> getFolderName ''/games/Foo/'' = ''Foo''
   \<and> \<not> (\<exists>c \<in> set ''//''. \<not> is_sep c)
   \<and> getFolderName ''//'' = ''//''"
proof -
  have a: "\<exists>c \<in> set ''/games/Foo/''. \<not> is_sep c"
    by (simp add: is_sep_def)
  have b: "\<forall>c \<in> set ''//''. is_sep c"
    by (simp add: is_sep_def)
  have c: "getFolderName ''/games/Foo/'' = ''Foo''"
    by (simp add: getFolderName_def segments_def truthy_def is_sep_def)
  show ?thesis
    using a b c getFolderName_last_nonempty_segment [of "''/games/Foo/''"]
      getFolderName_last_nonempty_segment [of "''//''"]
    by blast
qed

section \<open>The build registry\<close>

lemmas add_defs = addBuild_def addBuild_try_def and_then_def await_def return_def
  read_cover_def commit_build_def setError_5s_def log_call_def Let_def truthy_def

lemmas hosts = host_Foo_def host_Foo_cover_def host_Foo_unreadable_def host_Bar_def

subsection \<open>A folder without \<open>Engine\<close>\<close>



subsection \<open>The cover\<close>

text \<open>
  C1, as stated, fails: with \<open>Engine\<close> present and a splash image that exists and
  cannot be read, \<open>readBinaryFile\<close> rejects inside the \<open>try\<close> block, the \<open>catch\<close>
  reports "Could not add build", and no entry is created.
\<close>

theorem addBuild_cover_unreadable_counterexample:
  "exists_fs host_Foo_unreadable ''/games/Foo/Engine'' = Inr True
   \<and> readBinaryFile host_Foo_unreadable ''/games/Foo/FortniteGame/Content/Splash/Splash.bmp''
       = Inl ''Permission denied (os error 13)''
   \<and> builds (addBuild host_Foo_unreadable initial) = []
   \<and> error (addBuild host_Foo_unreadable initial)
       = Some ''Could not add build: Permission denied (os error 13)''"
  by (simp add: add_defs hosts initial_def)

text \<open>
  C1, amended. For a chosen folder with \<open>Engine\<close> and a library below sixteen builds:
  when the splash image is absent the entry is created without a cover; when it is
  present and read, the entry is created with the data URL of its bytes; when the probe
  for it or the read of it fails, the add is abandoned with "Could not add build" and
  the list, the selected path and the store are unchanged.
\<close>

theorem addBuild_cover:
  assumes "open_dialog h = Open_path selected" and "truthy selected"
    and "join_path h [selected, ''Engine''] = Inr enginePath"
    and "exists_fs h enginePath = Inr True"
    and "length (builds s) < 16"
    and "join_path h [selected, ''FortniteGame'', ''Content'', ''Splash'', ''Splash.bmp'']
           = Inr splashPath"
  shows "(exists_fs h splashPath = Inr False \<longrightarrow>
            builds (addBuild h s) =
              \<lparr>id_item = String_nat (date_now h) @ ''-'' @ random_suffix h,
               path_item = selected, name_item = getFolderName selected,
               coverDataUrl = None\<rparr> # builds s
            \<and> path (addBuild h s) = Some selected)
       \<and> (\<forall>bytes. exists_fs h splashPath = Inr True \<and> readBinaryFile h splashPath = Inr bytes \<longrightarrow>
            builds (addBuild h s) =
              \<lparr>id_item = String_nat (date_now h) @ ''-'' @ random_suffix h,
               path_item = selected, name_item = getFolderName selected,
               coverDataUrl = Some (''data:image/bmp;base64,'' @ bytesToBase64 bytes)\<rparr> # builds s
            \<and> path (addBuild h s) = Some selected)
       \<and> (\<forall>e. exists_fs h splashPath = Inl e
                \<or> exists_fs h splashPath = Inr True \<and> readBinaryFile h splashPath = Inl e \<longrightarrow>
            builds (addBuild h s) = builds s \<and> path (addBuild h s) = path s
            \<and> localStorage (addBuild h s) = localStorage s
            \<and> error (addBuild h s) = Some (''Could not add build: '' @ e))"
  using assms by (auto simp: add_defs)

theorem addBuild_cover_witness:
  "builds (addBuild host_Foo initial) =
     [\<lparr>id_item = String_nat 1760000000000 @ ''-k3j9x1'', path_item = ''/games/Foo'',
       name_item = getFolderName ''/games/Foo'', coverDataUrl = None\<rparr>]
   \<and> builds (addBuild host_Foo_cover initial) =
     [\<lparr>id_item = String_nat 1760000000000 @ ''-k3j9x1'', path_item = ''/games/Foo'',
       name_item = getFolderName ''/games/Foo'',
       coverDataUrl = Some (''data:image/bmp;base64,'' @ bytesToBase64 [0x4D, 0x61, 0x6E])\<rparr>]
   \<and> builds (addBuild host_Foo_unreadable initial) = []"
proof -
  have a: "builds (addBuild host_Foo initial) =
     [\<lparr>id_item = String_nat 1760000000000 @ ''-k3j9x1'', path_item = ''/games/Foo'',
       name_item = getFolderName ''/games/Foo'', coverDataUrl = None\<rparr>]"
    using addBuild_cover [of host_Foo "''/games/Foo''" "''/games/Foo/Engine''" initial
        "''/games/Foo/FortniteGame/Content/Splash/Splash.bmp''"]
    by (simp add: hosts truthy_def initial_def)
  have b: "builds (addBuild host_Foo_cover initial) =
     [\<lparr>id_item = String_nat 1760000000000 @ ''-k3j9x1'', path_item = ''/games/Foo'',
       name_item = getFolderName ''/games/Foo'',
       coverDataUrl = Some (''data:image/bmp;base64,'' @ bytesToBase64 [0x4D, 0x61, 0x6E])\<rparr>]"
    using addBuild_cover [of host_Foo_cover "''/games/Foo''" "''/games/Foo/Engine''" initial
        "''/games/Foo/FortniteGame/Content/Splash/Splash.bmp''"]
    by (simp add: hosts truthy_def initial_def)
  have c: "builds (addBuild host_Foo_unreadable initial) = []"
    using addBuild_cover [of host_Foo_unreadable "''/games/Foo''" "''/games/Foo/Engine''" initial
        "''/games/Foo/FortniteGame/Content/Splash/Splash.bmp''"]
    by (simp add: hosts truthy_def initial_def)
  from a b c show ?thesis by simp
qed

subsection \<open>The full library\<close>

text \<open>
  C2, as stated, fails: the \<open>Engine\<close> probe runs before the capacity check. With
  sixteen builds and a folder without \<open>Engine\<close>, the file system is queried and the
  error is the invalid build, not the full library.
\<close>

theorem addBuild_full_counterexample:
  "length (builds library16) = 16
   \<and> error (addBuild host_Bar library16) = Some msg_invalid_build
   \<and> error (addBuild host_Bar library16) \<noteq> Some msg_full
   \<and> calls (addBuild host_Bar library16) =
       [Dialog_open, Path_join [''/games/Bar'', ''Engine''], Fs_exists ''/games/Bar/Engine'',
        SetTimeout_clear_error 5000]"
  by (simp add: add_defs hosts library16_def initial_def msg_invalid_build_def msg_full_def)

text \<open>
  C2, amended. With sixteen builds or more, \<open>addBuild\<close> never changes the list, the
  selected path or the store. The \<open>Engine\<close> probe runs first; a folder that passes it
  is rejected with the full-library message, and the calls made are the dialog, the
  join and the \<open>Engine\<close> probe only: the cover is neither probed nor read.
\<close>

theorem addBuild_full:
  assumes "16 \<le> length (builds s)"
  shows "builds (addBuild h s) = builds s \<and> path (addBuild h s) = path s
     \<and> localStorage (addBuild h s) = localStorage s
     \<and> (\<forall>selected enginePath.
          open_dialog h = Open_path selected \<and> truthy selected
          \<and> join_path h [selected, ''Engine''] = Inr enginePath
          \<and> exists_fs h enginePath = Inr True \<longrightarrow>
          error (addBuild h s) = Some msg_full
          \<and> calls (addBuild h s) =
              calls s @ [Dialog_open, Path_join [selected, ''Engine''], Fs_exists enginePath,
                         SetTimeout_clear_error 5000])"
  using assms by (simp add: add_defs split: open_result.split sum.split prod.split)

theorem addBuild_full_witness:
  "16 \<le> length (builds library16)
   \<and> builds (addBuild host_Foo library16) = builds library16
   \<and> error (addBuild host_Foo library16) = Some msg_full
   \<and> calls (addBuild host_Foo library16) =
       [Dialog_open, Path_join [''/games/Foo'', ''Engine''], Fs_exists ''/games/Foo/Engine'',
        SetTimeout_clear_error 5000]"
proof -
  have a: "16 \<le> length (builds library16)" by (simp add: library16_def)
  have b: "open_dialog host_Foo = Open_path ''/games/Foo'' \<and> truthy ''/games/Foo''
      \<and> join_path host_Foo [''/games/Foo'', ''Engine''] = Inr ''/games/Foo/Engine''
      \<and> exists_fs host_Foo ''/games/Foo/Engine'' = Inr True"
    by (simp add: hosts truthy_def)
  have c: "calls library16 = []" by (simp add: library16_def initial_def)
  show ?thesis
    using a b c addBuild_full [OF a, of host_Foo] by simp
qed

subsection \<open>The bound of sixteen\<close>

lemma addBuild_length: "length (builds s) \<le> 16 \<Longrightarrow> length (builds (addBuild h s)) \<le> 16"
  by (simp add: add_defs split: open_result.split sum.split prod.split)

lemma removeBuild_length: "length (builds (removeBuild i s)) \<le> length (builds s)"
  by (simp add: removeBuild_def Let_def split: option.split list.split)

lemma step_length: "length (builds s) \<le> 16 \<Longrightarrow> length (builds (step x s)) \<le> 16"
proof (cases x)
  case (Add h)
  assume "length (builds s) \<le> 16"
  with Add show ?thesis by (simp add: addBuild_length)
next
  case (Remove i)
  assume "length (builds s) \<le> 16"
  with Remove removeBuild_length [of i s] show ?thesis by simp
qed

lemma run_ops_length:
  "length (builds s) \<le> 16 \<Longrightarrow> length (builds (run_ops ops s)) \<le> 16"
proof (induction ops arbitrary: s)
  case Nil
  then show ?case by simp
next
  case (Cons x xs)
  from Cons.prems have "length (builds (step x s)) \<le> 16" by (rule step_length)
  then show ?case using Cons.IH by simp
qed

lemma addBuild_rejects_when_full:
  assumes "length (builds s) = 16"
    and "open_dialog h = Open_path selected" and "truthy selected"
    and "join_path h [selected, ''Engine''] = Inr enginePath"
    and "exists_fs h enginePath = Inr True"
  shows "error (addBuild h s) = Some msg_full \<and> builds (addBuild h s) = builds s"
  using assms by (simp add: add_defs)

lemma host_Foo_adds:
  "length (builds s) + n \<le> 16 \<Longrightarrow>
   length (builds (run_ops (replicate n (Add host_Foo)) s)) = length (builds s) + n"
proof (induction n arbitrary: s)
  case 0
  show ?case by simp
next
  case (Suc n)
  then have "length (builds (addBuild host_Foo s)) = Suc (length (builds s))"
    by (simp add: add_defs hosts)
  with Suc show ?case by simp
qed

lemma run_ops_snoc: "run_ops (xs @ [x]) s = step x (run_ops xs s)"
  by (induction xs arbitrary: s) simp_all

text \<open>
  C5, as stated, fails in its second half: after sixteen adds of an installation, a
  seventeenth add attempt of a folder without \<open>Engine\<close> is rejected as an invalid
  build, not with the full-library message, since the \<open>Engine\<close> probe comes first.
\<close>

theorem seventeenth_add_counterexample:
  "length (builds (run_ops (replicate 16 (Add host_Foo)) initial)) = 16
   \<and> error (run_ops (replicate 16 (Add host_Foo) @ [Add host_Bar]) initial)
       = Some msg_invalid_build
   \<and> error (run_ops (replicate 16 (Add host_Foo) @ [Add host_Bar]) initial) \<noteq> Some msg_full"
proof -
  let ?s = "run_ops (replicate 16 (Add host_Foo)) initial"
  have a: "length (builds ?s) = 16"
    using host_Foo_adds [of initial 16] by (simp add: initial_def)
  have "error (addBuild host_Bar ?s) = Some msg_invalid_build"
    by (simp add: add_defs hosts)
  then show ?thesis
    using a by (simp add: run_ops_snoc msg_invalid_build_def msg_full_def)
qed

text \<open>
  C5, amended. From a library of at most sixteen builds, no sequence of adds and
  removes, and no prefix of one, leaves more than sixteen builds. With sixteen builds
  every add attempt is rejected, leaving the list, the selected path and the store as
  they were: with the full-library message when the folder holds \<open>Engine\<close>, as an
  invalid build when it does not.
\<close>

theorem registry_bounded:
  "(length (builds s) \<le> 16 \<longrightarrow>
      (\<forall>n. length (builds (run_ops (take n ops) s)) \<le> 16)
      \<and> length (builds (run_ops ops s)) \<le> 16)
   \<and> (length (builds s) = 16 \<longrightarrow>
        builds (step (Add h) s) = builds s \<and> path (step (Add h) s) = path s
        \<and> localStorage (step (Add h) s) = localStorage s)
   \<and> (length (builds s) = 16 \<and> open_dialog h = Open_path selected \<and> truthy selected
       \<and> join_path h [selected, ''Engine''] = Inr enginePath \<longrightarrow>
        (exists_fs h enginePath = Inr True \<longrightarrow> error (step (Add h) s) = Some msg_full)
        \<and> (exists_fs h enginePath = Inr False \<longrightarrow>
             error (step (Add h) s) = Some msg_invalid_build))"
proof -
  have "builds (addBuild h s) = builds s \<and> path (addBuild h s) = path s
        \<and> localStorage (addBuild h s) = localStorage s" if "length (builds s) = 16"
    using that by (simp add: add_defs split: open_result.split sum.split prod.split)
  moreover have "error (addBuild h s) = Some msg_invalid_build"
    if "open_dialog h = Open_path selected" "truthy selected"
      "join_path h [selected, ''Engine''] = Inr enginePath" "exists_fs h enginePath = Inr False"
    using that by (simp add: add_defs)
  ultimately show ?thesis
    using run_ops_length addBuild_rejects_when_full by simp
qed

theorem registry_bounded_witness:
  "length (builds (run_ops (replicate 16 (Add host_Foo)) initial)) = 16
   \<and> error (run_ops (replicate 17 (Add host_Foo)) initial) = Some msg_full
   \<and> error (run_ops (replicate 16 (Add host_Foo) @ [Add host_Bar]) initial)
       = Some msg_invalid_build
   \<and> length (builds (run_ops (replicate 17 (Add host_Foo)) initial)) = 16
   \<and> length (builds (run_ops [Add host_Foo, Remove ''x'', Add host_Foo_cover] initial)) \<le> 16"
proof -
  let ?s = "run_ops (replicate 16 (Add host_Foo)) initial"
  have a: "length (builds ?s) = 16"
    using host_Foo_adds [of initial 16] by (simp add: initial_def)
  have b: "open_dialog host_Foo = Open_path ''/games/Foo'' \<and> truthy ''/games/Foo''
      \<and> join_path host_Foo [''/games/Foo'', ''Engine''] = Inr ''/games/Foo/Engine''
      \<and> exists_fs host_Foo ''/games/Foo/Engine'' = Inr True"
    by (simp add: hosts truthy_def)
  have b': "open_dialog host_Bar = Open_path ''/games/Bar'' \<and> truthy ''/games/Bar''
      \<and> join_path host_Bar [''/games/Bar'', ''Engine''] = Inr ''/games/Bar/Engine''
      \<and> exists_fs host_Bar ''/games/Bar/Engine'' = Inr False"
    by (simp add: hosts truthy_def)
  have "(17::nat) = Suc 16" by simp
  then have "replicate 17 (Add host_Foo) = replicate (Suc 16) (Add host_Foo)"
    by (rule arg_cong)
  then have c: "replicate 17 (Add host_Foo) = replicate 16 (Add host_Foo) @ [Add host_Foo]"
    by (simp only: replicate_Suc replicate_append_same)
  have d: "length (builds initial) \<le> 16" by (simp add: initial_def)
  show ?thesis
    using a b b' d
      registry_bounded [of ?s "[]" host_Foo "''/games/Foo''" "''/games/Foo/Engine''"]
      registry_bounded [of ?s "[]" host_Bar "''/games/Bar''" "''/games/Bar/Engine''"]
      registry_bounded [of initial "[Add host_Foo, Remove ''x'', Add host_Foo_cover]"]
    unfolding c run_ops_snoc by simp
qed

subsection \<open>Removing a build\<close>

text \<open>
  C6. \<open>removeBuild i\<close> keeps the builds whose id is not \<open>i\<close>. When the entry with id
  \<open>i\<close> (the first one, should ids repeat) has the selected path, the selection becomes
  the path of the first remaining build, or is cleared when none remains; when its path
  is not the selected one, the selection is unchanged; when no build has id \<open>i\<close>, the
  list, the selection and the error are unchanged, and the whole state is unchanged if
  the store was in step with the list.
\<close>

theorem removeBuild_selection:
  "(\<forall>r. find (\<lambda>b. id_item b = i) (builds s) = Some r \<and> Some (path_item r) = path s \<longrightarrow>
        path (removeBuild i s) =
          (case builds (removeBuild i s) of [] \<Rightarrow> None | b # bs \<Rightarrow> Some (path_item b)))
   \<and> (\<forall>r. find (\<lambda>b. id_item b = i) (builds s) = Some r \<and> Some (path_item r) \<noteq> path s \<longrightarrow>
        path (removeBuild i s) = path s)
   \<and> (i \<notin> id_item ` set (builds s) \<longrightarrow>
        builds (removeBuild i s) = builds s \<and> path (removeBuild i s) = path s
        \<and> error (removeBuild i s) = error s
        \<and> (localStorage s ''PabloMP.builds'' = Some (Json_builds (builds s)) \<longrightarrow>
             removeBuild i s = s))
   \<and> builds (removeBuild i s) = filter (\<lambda>b. id_item b \<noteq> i) (builds s)"
proof -
  have absent: "filter (\<lambda>b. id_item b \<noteq> i) (builds s) = builds s
      \<and> find (\<lambda>b. id_item b = i) (builds s) = None"
    if "i \<notin> id_item ` set (builds s)"
    using that by (auto simp: find_None_iff filter_id_conv)
  have same: "s\<lparr>localStorage := (localStorage s)(''PabloMP.builds'' \<mapsto> Json_builds (builds s)),
       builds := builds s\<rparr> = s"
    if "localStorage s ''PabloMP.builds'' = Some (Json_builds (builds s))"
    using that by (simp add: fun_upd_idem)
  show ?thesis
    using absent same
    by (auto simp: removeBuild_def Let_def split: list.splits option.splits)
qed

theorem removeBuild_selection_witness:
  "find (\<lambda>b. id_item b = ''b'') (builds library3) = Some item_b
   \<and> Some (path_item item_b) = path library3
   \<and> builds (removeBuild ''b'' library3) = [item_a, item_c]
   \<and> path (removeBuild ''b'' library3) = Some ''/games/A''
   \<and> path (removeBuild ''b'' (library3\<lparr>builds := [item_b]\<rparr>)) = None
   \<and> find (\<lambda>b. id_item b = ''c'') (builds library3) = Some item_c
   \<and> path (removeBuild ''c'' library3) = Some ''/games/B''
   \<and> ''zz'' \<notin> id_item ` set (builds library3)
   \<and> removeBuild ''zz'' library3 = library3"
proof -
  have a: "find (\<lambda>b. id_item b = ''b'') (builds library3) = Some item_b
      \<and> Some (path_item item_b) = path library3
      \<and> find (\<lambda>b. id_item b = ''c'') (builds library3) = Some item_c
      \<and> Some (path_item item_c) \<noteq> path library3
      \<and> ''zz'' \<notin> id_item ` set (builds library3)
      \<and> localStorage library3 ''PabloMP.builds'' = Some (Json_builds (builds library3))"
    by (simp add: library3_def initial_def item_a_def item_b_def item_c_def)
  have b: "find (\<lambda>b. id_item b = ''b'') (builds (library3\<lparr>builds := [item_b]\<rparr>)) = Some item_b
      \<and> Some (path_item item_b) = path (library3\<lparr>builds := [item_b]\<rparr>)"
    by (simp add: library3_def initial_def item_b_def)
  have c: "filter (\<lambda>b. id_item b \<noteq> ''b'') (builds library3) = [item_a, item_c]
      \<and> filter (\<lambda>b. id_item b \<noteq> ''b'') [item_b] = []
      \<and> path library3 = Some ''/games/B'' \<and> path_item item_a = ''/games/A''"
    by (simp add: library3_def initial_def item_a_def item_b_def item_c_def)
  show ?thesis
    using a b c removeBuild_selection [of "''b''" library3]
      removeBuild_selection [of "''b''" "library3\<lparr>builds := [item_b]\<rparr>"]
      removeBuild_selection [of "''c''" library3]
      removeBuild_selection [of "''zz''" library3]
    by simp
qed

section \<open>Launching\<close>

lemmas launch_defs = handleLaunch_def setIsLaunching_def setError_5s_def log_call_def Let_def
  commit_def useEffect_isLaunching_def run_def


lemma handleLaunch_no_build:
  "launchPath s = None \<or> launchPath s = Some [] \<Longrightarrow>
   handleLaunch s =
     setIsLaunching False (setError_5s msg_no_build_selected (setIsLaunching True s))"
  by (auto simp: handleLaunch_def Let_def truthy_def)

lemma handleLaunch_no_user:
  "launchPath s = Some lp \<Longrightarrow> truthy lp \<Longrightarrow> user s = None \<Longrightarrow>
   handleLaunch s =
     setIsLaunching False (setError_5s msg_not_authenticated (setIsLaunching True s))"
  by (simp add: handleLaunch_def Let_def)

lemma rejected_launch:
  assumes "\<not> isLaunching s" and "queued s = []"
  shows "\<not> isLaunching (setIsLaunching False (setError_5s msg (setIsLaunching True s)))
   \<and> commit (setIsLaunching False (setError_5s msg (setIsLaunching True s))) =
       s\<lparr>error := Some msg,
         calls := calls s @ [SetIsLaunching True, SetTimeout_clear_error 5000,
                             SetIsLaunching False]\<rparr>"
  using assms by (simp add: setIsLaunching_def setError_5s_def log_call_def commit_def)







lemma stale_reply_ignored:
  "isLaunching (run_events [Click_launch, Firstlaunch_settled (Inl ''refused''), Click_launch,
     Query_settled 0 (Resolved_bool False)] session3)"
  by (simp add: session3_def library3_def initial_def launchPath_def truthy_def
      handleLaunch_settled_def run_settled_def launch_defs)

subsection \<open>Failed preconditions\<close>

text \<open>
  C3. From the idle state, when \<open>handleLaunch\<close> resolves no build path (neither the
  selected path nor a first build's), or resolves one and finds no session, the
  corresponding message is set and the launch flag never leaves idle: the two writes
  of the flag, \<open>true\<close> and \<open>false\<close>, are made in one synchronous stretch and applied
  together, so the flag is down while the handler runs and down when it has returned.
  Nothing else changes: no launch command is issued, no run of the polling effect
  starts and no liveness query is issued.
\<close>

theorem handleLaunch_preconditions:
  "(\<not> isLaunching s \<and> queued s = [] \<and> (launchPath s = None \<or> launchPath s = Some []) \<longrightarrow>
      \<not> isLaunching (handleLaunch s)
      \<and> fire Click_launch s =
          s\<lparr>error := Some msg_no_build_selected,
            calls := calls s @ [SetIsLaunching True, SetTimeout_clear_error 5000,
                                SetIsLaunching False]\<rparr>)
   \<and> (\<not> isLaunching s \<and> queued s = [] \<and> (\<exists>lp. launchPath s = Some lp \<and> truthy lp)
       \<and> user s = None \<longrightarrow>
      \<not> isLaunching (handleLaunch s)
      \<and> fire Click_launch s =
          s\<lparr>error := Some msg_not_authenticated,
            calls := calls s @ [SetIsLaunching True, SetTimeout_clear_error 5000,
                                SetIsLaunching False]\<rparr>)"
proof (intro conjI impI)
  assume a: "\<not> isLaunching s \<and> queued s = [] \<and> (launchPath s = None \<or> launchPath s = Some [])"
  then have eq: "handleLaunch s =
      setIsLaunching False (setError_5s msg_no_build_selected (setIsLaunching True s))"
    by (simp add: handleLaunch_no_build)
  show "\<not> isLaunching (handleLaunch s)"
    and "fire Click_launch s =
          s\<lparr>error := Some msg_no_build_selected,
            calls := calls s @ [SetIsLaunching True, SetTimeout_clear_error 5000,
                                SetIsLaunching False]\<rparr>"
    using a rejected_launch [of s msg_no_build_selected] by (simp_all add: eq)
next
  assume a: "\<not> isLaunching s \<and> queued s = [] \<and> (\<exists>lp. launchPath s = Some lp \<and> truthy lp)
       \<and> user s = None"
  then have eq: "handleLaunch s =
      setIsLaunching False (setError_5s msg_not_authenticated (setIsLaunching True s))"
    using handleLaunch_no_user by blast
  show "\<not> isLaunching (handleLaunch s)"
    and "fire Click_launch s =
          s\<lparr>error := Some msg_not_authenticated,
            calls := calls s @ [SetIsLaunching True, SetTimeout_clear_error 5000,
                                SetIsLaunching False]\<rparr>"
    using a rejected_launch [of s msg_not_authenticated] by (simp_all add: eq)
qed

theorem handleLaunch_preconditions_witness:
  "\<not> isLaunching initial \<and> launchPath initial = None
   \<and> error (fire Click_launch initial) = Some msg_no_build_selected
   \<and> \<not> isLaunching (fire Click_launch initial)
   \<and> calls (fire Click_launch initial) =
       [SetIsLaunching True, SetTimeout_clear_error 5000, SetIsLaunching False]
   \<and> \<not> isLaunching library3 \<and> launchPath library3 = Some ''/games/B'' \<and> user library3 = None
   \<and> error (fire Click_launch library3) = Some msg_not_authenticated
   \<and> \<not> isLaunching (fire Click_launch library3)
   \<and> queries (calls (fire Click_launch library3)) = []"
proof -
  have a: "\<not> isLaunching initial \<and> queued initial = [] \<and> launchPath initial = None
      \<and> calls initial = []"
    by (simp add: launchPath_def initial_def)
  have b: "\<not> isLaunching library3 \<and> queued library3 = []
      \<and> launchPath library3 = Some ''/games/B'' \<and> truthy ''/games/B'' \<and> user library3 = None
      \<and> calls library3 = []"
    by (simp add: launchPath_def library3_def initial_def truthy_def)
  show ?thesis
    using a b handleLaunch_preconditions [of initial] handleLaunch_preconditions [of library3]
    by simp
qed

subsection \<open>Polling\<close>




section \<open>Logging out\<close>

text \<open>
  C4. After \<open>handleLogout\<close> the store is empty: no session, no toggle, no selected
  path, no list of builds, nor any other key; the session, the selected path and the
  list are cleared in the component as well. Should the effects on the list and the
  path run once more on the cleared state, the store holds the empty list of builds
  and nothing else.
\<close>

theorem handleLogout_total_reset:
  "localStorage (handleLogout s) = Map.empty
   \<and> user (handleLogout s) = None \<and> path (handleLogout s) = None
   \<and> builds (handleLogout s) = []
   \<and> localStorage (useEffect_path (useEffect_builds (handleLogout s)))
       = [''PabloMP.builds'' \<mapsto> Json_builds []]"
  by (simp add: handleLogout_def log_call_def useEffect_builds_def useEffect_path_def)

end
